theory Spec2Isabelle
  imports Main
begin

section \<open>Values, tasks and the backing file\<close>

text \<open>
  The task store of \<^verbatim>\<open>src/todo.py\<close> keeps \<^verbatim>\<open>self.tasks : List[Dict[str, Any]]\<close>:
  a list of dictionaries whose values are whatever \<^verbatim>\<open>json.load\<close> produced.
  A value is a JSON value. Numbers with a fraction or an exponent (Python floats) are left
  out of the value type.
\<close>

datatype json =
    JNull
  | JBool bool
  | JInt int
  | JStr string
  | JArr "json list"
  | JObj "(string \<times> json) list"

text \<open>
  A task is a Python \<^verbatim>\<open>dict\<close> with string keys: \<open>t k = None\<close> says that the key is
  missing, so that \<^verbatim>\<open>t[k]\<close> raises \<^verbatim>\<open>KeyError\<close> and \<^verbatim>\<open>t.get(k, d)\<close> yields \<open>d\<close>.
  The dictionaries of the list are separate objects (each comes from its own JSON object
  or from its own call of \<^verbatim>\<open>add_task\<close>), so updating one leaves the others alone.
\<close>

type_synonym task = "string \<rightharpoonup> json"

text \<open>\<^verbatim>\<open>t.get(k, d)\<close>\<close>

definition get_or :: "task \<Rightarrow> string \<Rightarrow> json \<Rightarrow> json" where
  "get_or t k d = (case t k of None \<Rightarrow> d | Some v \<Rightarrow> v)"

text \<open>Python's truth value of a JSON value, as \<^verbatim>\<open>if\<close> and \<^verbatim>\<open>not\<close> take it.\<close>

fun truthy :: "json \<Rightarrow> bool" where
  "truthy JNull = False"
| "truthy (JBool b) = b"
| "truthy (JInt n) = (n \<noteq> 0)"
| "truthy (JStr s) = (s \<noteq> [])"
| "truthy (JArr xs) = (xs \<noteq> [])"
| "truthy (JObj kvs) = (kvs \<noteq> [])"

text \<open>
  The integer a value stands for in Python arithmetic and comparison: \<^verbatim>\<open>bool\<close> is a
  subclass of \<^verbatim>\<open>int\<close> (\<^verbatim>\<open>True == 1\<close>); every other kind of value is no number.
\<close>

fun numeric :: "json \<Rightarrow> int option" where
  "numeric (JInt n) = Some n"
| "numeric (JBool b) = Some (if b then 1 else 0)"
| "numeric JNull = None"
| "numeric (JStr s) = None"
| "numeric (JArr xs) = None"
| "numeric (JObj kvs) = None"

text \<open>\<^verbatim>\<open>v == task_id\<close> for an integer \<^verbatim>\<open>task_id\<close>: false, never an error, on a non-number.\<close>

definition py_eq_int :: "json \<Rightarrow> int \<Rightarrow> bool" where
  "py_eq_int v n = (numeric v = Some n)"

text \<open>
  What \<^verbatim>\<open>json.load\<close> makes of the text of the backing file (a text file: its bytes
  decode in the encoding \<^verbatim>\<open>open\<close> uses): it returns the decoded array of objects, or
  raises \<^verbatim>\<open>JSONDecodeError\<close>. A text that is JSON but not an array
  of objects is outside the declared result type of \<^verbatim>\<open>_load_tasks\<close> and has no
  constructor. Writing with \<^verbatim>\<open>json.dump\<close> leaves a text that decodes to the value written.
\<close>

datatype file_text = Json_array "task list" | Not_json

text \<open>
  The path \<^verbatim>\<open>self.tasks_file\<close> on disk: \<open>content = None\<close> when no file exists;
  \<open>readable\<close> and \<open>writable\<close> say whether \<^verbatim>\<open>open(path, "r")\<close> and
  \<^verbatim>\<open>open(path, "w")\<close> succeed (otherwise they raise \<^verbatim>\<open>IOError\<close>).
\<close>

record disk =
  content :: "file_text option"
  readable :: bool
  writable :: bool

section \<open>Output and outcomes\<close>

datatype failure = Decode_error | IO_error

text \<open>One constructor for each \<^verbatim>\<open>print\<close> call of the source, with the values it formats.\<close>

datatype message =
    Error_loading failure      \<comment> \<open>\<^verbatim>\<open>Error loading tasks: {e}\<close> (stderr)\<close>
  | Error_saving               \<comment> \<open>\<^verbatim>\<open>Error saving tasks: {e}\<close> (stderr)\<close>
  | Task_added string          \<comment> \<open>\<^verbatim>\<open>Task added: {title}\<close>\<close>
  | No_tasks_found             \<comment> \<open>\<^verbatim>\<open>No tasks found.\<close>\<close>
  | No_incomplete_tasks_found  \<comment> \<open>\<^verbatim>\<open>No incomplete tasks found.\<close>\<close>
  | List_header                \<comment> \<open>\<^verbatim>\<open>To-Do List:\<close>\<close>
  | List_rule                  \<comment> \<open>sixty dashes\<close>
  | Task_line bool json json   \<comment> \<open>\<^verbatim>\<open>{status} [{task['id']}] {task['title']}\<close>\<close>
  | Description_line json      \<comment> \<open>the indented \<^verbatim>\<open>{task['description']}\<close>\<close>
  | Marked_completed int       \<comment> \<open>\<^verbatim>\<open>Task {task_id} marked as completed.\<close>\<close>
  | Deleted int                \<comment> \<open>\<^verbatim>\<open>Task {task_id} deleted.\<close>\<close>
  | Not_found int              \<comment> \<open>\<^verbatim>\<open>Task {task_id} not found.\<close>\<close>

text \<open>
  How a call ends: it returns, an exception leaves it uncaught (\<^verbatim>\<open>KeyError\<close> on a
  missing key, \<^verbatim>\<open>TypeError\<close> on a value of the wrong kind), or \<^verbatim>\<open>sys.exit\<close> ends the
  process with the given status.
\<close>

datatype outcome = Returned | Raised | Exited nat

text \<open>The \<^verbatim>\<open>TodoApp\<close> object with its file and the two output streams of the process.\<close>

record app =
  tasks :: "task list"
  tasks_file :: disk
  out :: "message list"
  err :: "message list"

definition print :: "message \<Rightarrow> app \<Rightarrow> app" where
  "print m a = a\<lparr>out := out a @ [m]\<rparr>"

section \<open>Loading and saving\<close>

text \<open>
  The body of the \<^verbatim>\<open>try\<close> in \<^verbatim>\<open>_load_tasks\<close>: \<^verbatim>\<open>open\<close>, then \<^verbatim>\<open>json.load\<close>.
  \<open>Inl\<close> is the exception raised. A file that is gone by the time it is opened raises
  \<^verbatim>\<open>FileNotFoundError\<close>, an \<^verbatim>\<open>IOError\<close>.
\<close>

definition read_json :: "disk \<Rightarrow> failure + task list" where
  "read_json d =
     (if \<not> readable d then Inl IO_error
      else (case content d of
              None \<Rightarrow> Inl IO_error
            | Some (Json_array ts) \<Rightarrow> Inr ts
            | Some Not_json \<Rightarrow> Inl Decode_error))"

text \<open>
  \<^verbatim>\<open>_load_tasks\<close>: the tasks and the diagnostics written to stderr. The handler
  \<^verbatim>\<open>except (json.JSONDecodeError, IOError)\<close> takes both failures.
\<close>

definition load_tasks :: "disk \<Rightarrow> task list \<times> message list" where
  "load_tasks d =
     (if content d \<noteq> None
      then (case read_json d of
              Inr ts \<Rightarrow> (ts, [])
            | Inl e \<Rightarrow> ([], [Error_loading e]))
      else ([], []))"

text \<open>\<^verbatim>\<open>__init__\<close>, in a process that has printed nothing yet.\<close>

definition TodoApp :: "disk \<Rightarrow> app" where
  "TodoApp d = \<lparr>tasks = fst (load_tasks d), tasks_file = d, out = [], err = snd (load_tasks d)\<rparr>"

text \<open>\<^verbatim>\<open>_save_tasks\<close>\<close>

definition save_tasks :: "app \<Rightarrow> app \<times> outcome" where
  "save_tasks a =
     (if writable (tasks_file a)
      then (a\<lparr>tasks_file := (tasks_file a)\<lparr>content := Some (Json_array (tasks a))\<rparr>\<rparr>, Returned)
      else (a\<lparr>err := err a @ [Error_saving]\<rparr>, Exited 1))"

section \<open>The operations\<close>

subsection \<open>add\<close>

text \<open>\<^verbatim>\<open>t["id"]\<close> as a number; \<open>None\<close> when the key is missing or the value is no number.\<close>

definition id_num :: "task \<Rightarrow> int option" where
  "id_num t = (case t ''id'' of None \<Rightarrow> None | Some v \<Rightarrow> numeric v)"

text \<open>
  \<^verbatim>\<open>max((t["id"] for t in self.tasks), default=0) + 1\<close>. The loop of \<^verbatim>\<open>max\<close> keeps a
  running maximum and replaces it by a strictly greater item. \<open>None\<close> is an exception:
  a missing key raises \<^verbatim>\<open>KeyError\<close>; a value that is no number raises \<^verbatim>\<open>TypeError\<close>,
  in a comparison with a number or at the latest in \<^verbatim>\<open>+ 1\<close>.
\<close>

fun max_from :: "int \<Rightarrow> task list \<Rightarrow> int option" where
  "max_from m [] = Some m"
| "max_from m (t # ts) =
     (case id_num t of
        None \<Rightarrow> None
      | Some n \<Rightarrow> max_from (if n > m then n else m) ts)"

definition next_id :: "task list \<Rightarrow> int option" where
  "next_id ts =
     (case ts of
        [] \<Rightarrow> Some (0 + 1)
      | t # ts' \<Rightarrow>
          (case id_num t of
             None \<Rightarrow> None
           | Some n \<Rightarrow> (case max_from n ts' of None \<Rightarrow> None | Some m \<Rightarrow> Some (m + 1))))"

text \<open>The dictionary \<^verbatim>\<open>add_task\<close> builds; \<open>now\<close> is \<^verbatim>\<open>datetime.now().isoformat()\<close>.\<close>

definition new_task :: "int \<Rightarrow> string \<Rightarrow> string \<Rightarrow> string \<Rightarrow> task" where
  "new_task n title description now =
     [''id'' \<mapsto> JInt n,
      ''title'' \<mapsto> JStr title,
      ''description'' \<mapsto> JStr description,
      ''completed'' \<mapsto> JBool False,
      ''created_at'' \<mapsto> JStr now]"

definition add_task :: "string \<Rightarrow> string \<Rightarrow> string \<Rightarrow> app \<Rightarrow> app \<times> outcome" where
  "add_task title description now a =
     (case next_id (tasks a) of
        None \<Rightarrow> (a, Raised)
      | Some n \<Rightarrow>
          (case save_tasks (a\<lparr>tasks := tasks a @ [new_task n title description now]\<rparr>) of
             (a', Returned) \<Rightarrow> (print (Task_added title) a', Returned)
           | (a', stop) \<Rightarrow> (a', stop)))"

subsection \<open>list\<close>

text \<open>\<^verbatim>\<open>task.get("completed", False)\<close> as a condition.\<close>

definition is_completed :: "task \<Rightarrow> bool" where
  "is_completed t = truthy (get_or t ''completed'' (JBool False))"

text \<open>
  The \<^verbatim>\<open>for\<close> loop of \<^verbatim>\<open>list_tasks\<close>. The f-string reads \<^verbatim>\<open>task['id']\<close>, then
  \<^verbatim>\<open>task['title']\<close>; a missing key raises before the line is printed.
\<close>

fun show_tasks :: "task list \<Rightarrow> app \<Rightarrow> app \<times> outcome" where
  "show_tasks [] a = (a, Returned)"
| "show_tasks (t # ts) a =
     (case t ''id'' of
        None \<Rightarrow> (a, Raised)
      | Some i \<Rightarrow>
          (case t ''title'' of
             None \<Rightarrow> (a, Raised)
           | Some ti \<Rightarrow>
               (let a' = print (Task_line (is_completed t) i ti) a;
                    a'' = (if truthy (get_or t ''description'' JNull)
                           then print (Description_line (get_or t ''description'' JNull)) a'
                           else a')
                in show_tasks ts a'')))"

definition list_tasks :: "bool \<Rightarrow> app \<Rightarrow> app \<times> outcome" where
  "list_tasks show_completed a =
     (if tasks a = [] then (print No_tasks_found a, Returned)
      else
        (let tasks_to_show =
               (if \<not> show_completed then filter (\<lambda>t. \<not> is_completed t) (tasks a)
                else tasks a)
         in if tasks_to_show = [] then (print No_incomplete_tasks_found a, Returned)
            else
              (case show_tasks tasks_to_show (print List_rule (print List_header a)) of
                 (a', Returned) \<Rightarrow> (print List_rule a', Returned)
               | (a', stop) \<Rightarrow> (a', stop))))"

subsection \<open>complete\<close>

text \<open>
  The scan of \<^verbatim>\<open>complete_task\<close>: the first task whose id equals \<^verbatim>\<open>task_id\<close> gets
  \<^verbatim>\<open>task["completed"] = True\<close> and the loop is left.
\<close>

datatype scan = Found "task list" | Absent | Key_error

fun mark_first :: "int \<Rightarrow> task list \<Rightarrow> scan" where
  "mark_first n [] = Absent"
| "mark_first n (t # ts) =
     (case t ''id'' of
        None \<Rightarrow> Key_error
      | Some v \<Rightarrow>
          if py_eq_int v n then Found (t(''completed'' \<mapsto> JBool True) # ts)
          else (case mark_first n ts of
                  Found ts' \<Rightarrow> Found (t # ts')
                | Absent \<Rightarrow> Absent
                | Key_error \<Rightarrow> Key_error))"

definition complete_task :: "int \<Rightarrow> app \<Rightarrow> app \<times> outcome" where
  "complete_task task_id a =
     (case mark_first task_id (tasks a) of
        Found ts \<Rightarrow>
          (case save_tasks (a\<lparr>tasks := ts\<rparr>) of
             (a', Returned) \<Rightarrow> (print (Marked_completed task_id) a', Returned)
           | (a', stop) \<Rightarrow> (a', stop))
      | Absent \<Rightarrow> (print (Not_found task_id) a, Returned)
      | Key_error \<Rightarrow> (a, Raised))"

subsection \<open>delete\<close>

text \<open>
  \<^verbatim>\<open>[t for t in self.tasks if t["id"] != task_id]\<close>; \<open>None\<close> when a task has no
  \<^verbatim>\<open>"id"\<close> key: the comprehension raises and \<^verbatim>\<open>self.tasks\<close> is not assigned.
\<close>

fun others :: "int \<Rightarrow> task list \<Rightarrow> task list option" where
  "others n [] = Some []"
| "others n (t # ts) =
     (case t ''id'' of
        None \<Rightarrow> None
      | Some v \<Rightarrow>
          (case others n ts of
             None \<Rightarrow> None
           | Some r \<Rightarrow> Some (if py_eq_int v n then r else t # r)))"

definition delete_task :: "int \<Rightarrow> app \<Rightarrow> app \<times> outcome" where
  "delete_task task_id a =
     (case others task_id (tasks a) of
        None \<Rightarrow> (a, Raised)
      | Some ts \<Rightarrow>
          (let original_length = length (tasks a);
               a1 = a\<lparr>tasks := ts\<rparr>
           in if length (tasks a1) < original_length
              then (case save_tasks a1 of
                      (a', Returned) \<Rightarrow> (print (Deleted task_id) a', Returned)
                    | (a', stop) \<Rightarrow> (a', stop))
              else (print (Not_found task_id) a1, Returned)))"

subsection \<open>Sequences of mutations\<close>

datatype mutation =
    Add string string string   \<comment> \<open>title, description, the clock's reading\<close>
  | Complete int
  | Delete int

fun apply_mutation :: "mutation \<Rightarrow> app \<Rightarrow> app \<times> outcome" where
  "apply_mutation (Add title description now) a = add_task title description now a"
| "apply_mutation (Complete n) a = complete_task n a"
| "apply_mutation (Delete n) a = delete_task n a"

text \<open>Calls in a row: what follows a raise or an exit does not run.\<close>

fun run :: "mutation list \<Rightarrow> app \<Rightarrow> app \<times> outcome" where
  "run [] a = (a, Returned)"
| "run (m # ms) a =
     (case apply_mutation m a of
        (a', Returned) \<Rightarrow> run ms a'
      | (a', stop) \<Rightarrow> (a', stop))"

section \<open>Properties of a store\<close>

text \<open>Every task has an \<^verbatim>\<open>"id"\<close> key.\<close>

definition has_ids :: "task list \<Rightarrow> bool" where
  "has_ids ts = list_all (\<lambda>t. t ''id'' \<noteq> None) ts"

text \<open>Every task has an integer id, as the data model of the store says.\<close>

definition int_ids :: "task list \<Rightarrow> bool" where
  "int_ids ts = list_all (\<lambda>t. id_num t \<noteq> None) ts"

text \<open>The integer ids of a store, in sequence order.\<close>

fun ids :: "task list \<Rightarrow> int list" where
  "ids [] = []"
| "ids (t # ts) = (case id_num t of None \<Rightarrow> ids ts | Some n \<Rightarrow> n # ids ts)"

text \<open>The ids are integers and pairwise distinct.\<close>

definition unique_ids :: "task list \<Rightarrow> bool" where
  "unique_ids ts = (int_ids ts \<and> distinct (ids ts))"

text \<open>No task has the id \<open>n\<close>.\<close>

definition absent :: "int \<Rightarrow> task list \<Rightarrow> bool" where
  "absent n ts = list_all (\<lambda>t. id_num t \<noteq> Some n) ts"

definition is_add :: "mutation \<Rightarrow> bool" where
  "is_add m = (case m of Add title description now \<Rightarrow> True | _ \<Rightarrow> False)"

text \<open>The lines \<^verbatim>\<open>list_tasks\<close> prints for one task that has an id and a title.\<close>

definition task_lines :: "task \<Rightarrow> message list" where
  "task_lines t =
     (case (t ''id'', t ''title'') of
        (Some i, Some ti) \<Rightarrow>
          Task_line (is_completed t) i ti #
          (if truthy (get_or t ''description'' JNull)
           then [Description_line (get_or t ''description'' JNull)] else [])
      | _ \<Rightarrow> [])"

definition printable :: "task list \<Rightarrow> bool" where
  "printable ts = list_all (\<lambda>t. t ''id'' \<noteq> None \<and> t ''title'' \<noteq> None) ts"

text \<open>The tasks a listing selects.\<close>

definition selected :: "bool \<Rightarrow> task list \<Rightarrow> task list" where
  "selected show_completed ts = (if show_completed then ts else filter (\<lambda>t. \<not> is_completed t) ts)"

section \<open>Sample data\<close>

definition sample_task :: "int \<Rightarrow> string \<Rightarrow> bool \<Rightarrow> task" where
  "sample_task n title done =
     [''id'' \<mapsto> JInt n, ''title'' \<mapsto> JStr title, ''description'' \<mapsto> JStr [],
      ''completed'' \<mapsto> JBool done, ''created_at'' \<mapsto> JStr ''t0'']"

text \<open>A task read from a file that gives no \<^verbatim>\<open>"completed"\<close> key.\<close>

definition bare_task :: "int \<Rightarrow> string \<Rightarrow> task" where
  "bare_task n title = [''id'' \<mapsto> JInt n, ''title'' \<mapsto> JStr title]"

definition sample_disk :: "task list \<Rightarrow> disk" where
  "sample_disk ts = \<lparr>content = Some (Json_array ts), readable = True, writable = True\<rparr>"

definition sample_app :: "task list \<Rightarrow> app" where
  "sample_app ts = \<lparr>tasks = ts, tasks_file = sample_disk ts, out = [], err = []\<rparr>"

text \<open>A completed task, a task with no \<^verbatim>\<open>"completed"\<close> key, a task with a description.\<close>

definition mixed_tasks :: "task list" where
  "mixed_tasks = [sample_task 1 ''a'' True, bare_task 2 ''b'', new_task 3 ''c'' ''note'' ''t0'']"

text \<open>A sequence as a hand-edited file can give it: two tasks share the id 2.\<close>

definition duplicate_tasks :: "task list" where
  "duplicate_tasks =
     [sample_task 1 ''a'' False, sample_task 2 ''b'' False, sample_task 2 ''c'' False,
      sample_task 3 ''d'' False]"

text \<open>A file of mode 0200: it can be written and cannot be read.\<close>

definition write_only_disk :: disk where
  "write_only_disk = \<lparr>content = Some (Json_array []), readable = False, writable = True\<rparr>"

text \<open>A store whose file cannot be written.\<close>

definition locked_app :: "task list \<Rightarrow> app" where
  "locked_app ts =
     \<lparr>tasks = ts, tasks_file = \<lparr>content = Some (Json_array ts), readable = True, writable = False\<rparr>,
      out = [], err = []\<rparr>"

definition three_tasks :: "task list" where
  "three_tasks = [sample_task 1 ''a'' False, sample_task 2 ''b'' True, sample_task 3 ''c'' False]"

section \<open>Auxiliary facts\<close>

subsection \<open>Ids and the next id\<close>

lemma int_ids_has_ids: "int_ids ts \<Longrightarrow> has_ids ts"
  by (induction ts) (auto simp: int_ids_def has_ids_def id_num_def split: option.splits)

lemma int_ids_Cons: "int_ids (t # ts) = (id_num t \<noteq> None \<and> int_ids ts)"
  by (simp add: int_ids_def)

lemma int_ids_append: "int_ids (xs @ ys) = (int_ids xs \<and> int_ids ys)"
  by (simp add: int_ids_def)

lemma ids_append: "ids (xs @ ys) = ids xs @ ids ys"
  by (induction xs) (auto split: option.splits)

lemma id_num_new_task: "id_num (new_task n title description now) = Some n"
  by (simp add: id_num_def new_task_def)

lemma max_from_fold:
  "int_ids ts \<Longrightarrow> max_from m ts = Some (fold max (ids ts) m)"
proof (induction ts arbitrary: m)
  case Nil
  then show ?case by simp
next
  case (Cons t ts)
  from Cons.prems obtain n where n: "id_num t = Some n" and rest: "int_ids ts"
    by (auto simp: int_ids_Cons)
  have "(if n > m then n else m) = max n m"
    by (simp add: max_def)
  with Cons.IH [OF rest] n show ?case
    by simp
qed

lemma next_id_Max:
  "int_ids ts \<Longrightarrow> next_id ts = Some ((if ts = [] then 0 else Max (set (ids ts))) + 1)"
proof (cases ts)
  case Nil
  then show ?thesis by (simp add: next_id_def)
next
  case (Cons t ts')
  assume "int_ids ts"
  with Cons obtain n where n: "id_num t = Some n" and rest: "int_ids ts'"
    by (auto simp: int_ids_Cons)
  have "Max (set (n # ids ts')) = fold max (ids ts') n"
    by (rule Max.set_eq_fold)
  with Cons n max_from_fold [OF rest, of n] show ?thesis
    by (simp add: next_id_def)
qed

lemma max_from_None: "\<not> int_ids ts \<Longrightarrow> max_from m ts = None"
proof (induction ts arbitrary: m)
  case Nil
  then show ?case by (simp add: int_ids_def)
next
  case (Cons t ts)
  then show ?case by (cases "id_num t") (simp_all add: int_ids_Cons)
qed

lemma next_id_None: "\<not> int_ids ts \<Longrightarrow> next_id ts = None"
proof (cases ts)
  case Nil
  then show "\<not> int_ids ts \<Longrightarrow> next_id ts = None" by (simp add: int_ids_def)
next
  case (Cons t ts')
  assume "\<not> int_ids ts"
  with Cons show ?thesis
    by (cases "id_num t") (simp_all add: next_id_def int_ids_Cons max_from_None)
qed

subsection \<open>save\<close>

lemma save_tasks_writable:
  "writable (tasks_file a) \<Longrightarrow>
   save_tasks a = (a\<lparr>tasks_file := (tasks_file a)\<lparr>content := Some (Json_array (tasks a))\<rparr>\<rparr>, Returned)"
  by (simp add: save_tasks_def)

lemma save_tasks_unwritable:
  "\<not> writable (tasks_file a) \<Longrightarrow> save_tasks a = (a\<lparr>err := err a @ [Error_saving]\<rparr>, Exited 1)"
  by (simp add: save_tasks_def)

subsection \<open>delete\<close>

lemma has_ids_Cons: "has_ids (t # ts) = (t ''id'' \<noteq> None \<and> has_ids ts)"
  by (simp add: has_ids_def)

lemma others_filter:
  "has_ids ts \<Longrightarrow> others n ts = Some (filter (\<lambda>t. id_num t \<noteq> Some n) ts)"
  by (induction ts) (auto simp: has_ids_Cons id_num_def py_eq_int_def)

lemma others_None: "\<not> has_ids ts \<Longrightarrow> others n ts = None"
  by (induction ts) (auto simp: has_ids_def split: option.splits)

lemma absent_filter: "absent n ts \<Longrightarrow> filter (\<lambda>t. id_num t \<noteq> Some n) ts = ts"
  by (induction ts) (auto simp: absent_def)

lemma present_filter_shorter:
  "\<not> absent n ts \<Longrightarrow> length (filter (\<lambda>t. id_num t \<noteq> Some n) ts) < length ts"
  by (induction ts) (auto simp: absent_def less_Suc_eq_le)

lemma delete_task_absent:
  "has_ids (tasks a) \<Longrightarrow> absent n (tasks a) \<Longrightarrow>
   delete_task n a = (a\<lparr>out := out a @ [Not_found n]\<rparr>, Returned)"
  by (simp add: delete_task_def others_filter absent_filter print_def)

lemma delete_task_present:
  "has_ids (tasks a) \<Longrightarrow> \<not> absent n (tasks a) \<Longrightarrow>
   delete_task n a =
     (case save_tasks (a\<lparr>tasks := filter (\<lambda>t. id_num t \<noteq> Some n) (tasks a)\<rparr>) of
        (a', Returned) \<Rightarrow> (print (Deleted n) a', Returned)
      | (a', stop) \<Rightarrow> (a', stop))"
  by (simp add: delete_task_def others_filter present_filter_shorter Let_def)

lemma tasks_delete_task:
  "has_ids (tasks a) \<Longrightarrow>
   tasks (fst (delete_task n a)) = filter (\<lambda>t. id_num t \<noteq> Some n) (tasks a)"
  by (cases "absent n (tasks a)")
     (simp_all add: delete_task_absent delete_task_present absent_filter save_tasks_def print_def)

lemma delete_task_raises: "\<not> has_ids (tasks a) \<Longrightarrow> delete_task n a = (a, Raised)"
  by (simp add: delete_task_def others_None)

lemma ids_filter:
  "ids (filter (\<lambda>t. id_num t \<noteq> Some n) ts) = filter (\<lambda>k. k \<noteq> n) (ids ts)"
  by (induction ts) (auto split: option.splits)

lemma int_ids_filter: "int_ids ts \<Longrightarrow> int_ids (filter P ts)"
  by (induction ts) (auto simp: int_ids_Cons)

lemma set_ids_absent: "absent n ts = (n \<notin> set (ids ts))"
  by (induction ts) (auto simp: absent_def split: option.splits)

subsection \<open>add\<close>

lemma add_task_int_ids:
  "int_ids (tasks a) \<Longrightarrow>
   add_task title description now a =
     (case save_tasks (a\<lparr>tasks := tasks a @
             [new_task ((if tasks a = [] then 0 else Max (set (ids (tasks a)))) + 1)
                title description now]\<rparr>) of
        (a', Returned) \<Rightarrow> (print (Task_added title) a', Returned)
      | (a', stop) \<Rightarrow> (a', stop))"
  by (simp add: add_task_def next_id_Max)

lemma add_task_raises: "\<not> int_ids (tasks a) \<Longrightarrow> add_task title description now a = (a, Raised)"
  by (simp add: add_task_def next_id_None)

lemma id_num_sample_task: "id_num (sample_task n title done) = Some n"
  by (simp add: id_num_def sample_task_def)

lemma id_num_bare_task: "id_num (bare_task n title) = Some n"
  by (simp add: id_num_def bare_task_def)

section \<open>The id of a new task\<close>

text \<open>
  C1. Whenever every task of the store has an integer id, \<open>add_task\<close> appends one task
  to the end of the sequence: its id is the maximum of the ids present (0 for the empty
  store) plus 1, its title and description are the arguments, and it is not completed.
  Then it saves: on a writable file the file holds the new sequence and the title is
  reported; otherwise the process exits with status 1 after a diagnostic on stderr.
  In particular, in a store whose ids are exactly 1, 2 and 3, deleting 3 and then adding
  gives the new task the id 3 again.
\<close>

theorem add_task_assigns_next_id:
  assumes "int_ids (tasks a)"
  shows "(let n = (if tasks a = [] then 0 else Max (set (ids (tasks a)))) + 1;
              ts = tasks a @ [new_task n title description now]
          in tasks (fst (add_task title description now a)) = ts \<and>
             last ts ''id'' = Some (JInt n) \<and>
             last ts ''title'' = Some (JStr title) \<and>
             last ts ''description'' = Some (JStr description) \<and>
             last ts ''completed'' = Some (JBool False) \<and>
             (writable (tasks_file a) \<longrightarrow>
                add_task title description now a =
                  (a\<lparr>tasks := ts,
                     tasks_file := (tasks_file a)\<lparr>content := Some (Json_array ts)\<rparr>,
                     out := out a @ [Task_added title]\<rparr>, Returned)) \<and>
             (\<not> writable (tasks_file a) \<longrightarrow>
                add_task title description now a =
                  (a\<lparr>tasks := ts, err := err a @ [Error_saving]\<rparr>, Exited 1)))
         \<and> (set (ids (tasks a)) = {1, 2, 3} \<and> writable (tasks_file a) \<longrightarrow>
              snd (run [Delete 3, Add title description now] a) = Returned \<and>
              tasks (fst (run [Delete 3, Add title description now] a)) =
                filter (\<lambda>t. id_num t \<noteq> Some 3) (tasks a) @ [new_task 3 title description now])"
proof -
  let ?n = "(if tasks a = [] then 0 else Max (set (ids (tasks a)))) + 1"
  let ?ts = "tasks a @ [new_task ?n title description now]"
  have general:
    "tasks (fst (add_task title description now a)) = ?ts"
    "writable (tasks_file a) \<longrightarrow>
       add_task title description now a =
         (a\<lparr>tasks := ?ts, tasks_file := (tasks_file a)\<lparr>content := Some (Json_array ?ts)\<rparr>,
            out := out a @ [Task_added title]\<rparr>, Returned)"
    "\<not> writable (tasks_file a) \<longrightarrow>
       add_task title description now a =
         (a\<lparr>tasks := ?ts, err := err a @ [Error_saving]\<rparr>, Exited 1)"
    using assms by (simp_all add: add_task_int_ids save_tasks_def print_def)
  have fields:
    "last ?ts ''id'' = Some (JInt ?n)" "last ?ts ''title'' = Some (JStr title)"
    "last ?ts ''description'' = Some (JStr description)"
    "last ?ts ''completed'' = Some (JBool False)"
    by (simp_all add: new_task_def)
  have reuse: "snd (run [Delete 3, Add title description now] a) = Returned \<and>
      tasks (fst (run [Delete 3, Add title description now] a)) =
        filter (\<lambda>t. id_num t \<noteq> Some 3) (tasks a) @ [new_task 3 title description now]"
    if ids: "set (ids (tasks a)) = {1, 2, 3}" and w: "writable (tasks_file a)"
  proof -
    let ?rest = "filter (\<lambda>t. id_num t \<noteq> Some 3) (tasks a)"
    let ?a1 = "a\<lparr>tasks := ?rest,
                 tasks_file := (tasks_file a)\<lparr>content := Some (Json_array ?rest)\<rparr>,
                 out := out a @ [Deleted 3]\<rparr>"
    have "\<not> absent 3 (tasks a)" using ids by (simp add: set_ids_absent)
    then have d: "delete_task 3 a = (?a1, Returned)"
      using assms w by (simp add: delete_task_present int_ids_has_ids save_tasks_def print_def)
    have "set (ids ?rest) = {1, 2}" using ids by (auto simp: ids_filter)
    then have mx: "Max (set (ids ?rest)) = 2" and ne: "?rest \<noteq> []"
      by auto
    have wf: "int_ids (tasks ?a1)" using assms by (simp add: int_ids_filter)
    have w1: "writable (tasks_file ?a1)" using w by simp
    have "add_task title description now ?a1 =
        (?a1\<lparr>tasks := ?rest @ [new_task 3 title description now],
           tasks_file := (tasks_file ?a1)\<lparr>content :=
             Some (Json_array (?rest @ [new_task 3 title description now]))\<rparr>,
           out := out ?a1 @ [Task_added title]\<rparr>, Returned)"
      using mx ne w by (simp add: add_task_int_ids [OF wf] save_tasks_def print_def)
    with d show ?thesis by simp
  qed
  show ?thesis
    unfolding Let_def using general fields reuse by blast
qed

theorem add_task_assigns_next_id_witness:
  "int_ids (tasks (sample_app three_tasks)) \<and>
   set (ids (tasks (sample_app three_tasks))) = {1, 2, 3} \<and>
   writable (tasks_file (sample_app three_tasks)) \<and>
   add_task ''d'' ''x'' ''t1'' (sample_app three_tasks) =
     (\<lparr>tasks = three_tasks @ [new_task 4 ''d'' ''x'' ''t1''],
       tasks_file = \<lparr>content = Some (Json_array (three_tasks @ [new_task 4 ''d'' ''x'' ''t1''])),
                     readable = True, writable = True\<rparr>,
       out = [Task_added ''d''], err = []\<rparr>, Returned) \<and>
   snd (run [Delete 3, Add ''d'' ''x'' ''t1''] (sample_app three_tasks)) = Returned \<and>
   tasks (fst (run [Delete 3, Add ''d'' ''x'' ''t1''] (sample_app three_tasks))) =
     [sample_task 1 ''a'' False, sample_task 2 ''b'' True, new_task 3 ''d'' ''x'' ''t1''] \<and>
   \<not> writable (tasks_file (locked_app []))  \<and>
   add_task ''d'' ''x'' ''t1'' (locked_app []) =
     (\<lparr>tasks = [new_task 1 ''d'' ''x'' ''t1''],
       tasks_file = \<lparr>content = Some (Json_array []), readable = True, writable = False\<rparr>,
       out = [], err = [Error_saving]\<rparr>, Exited 1)"
proof -
  have h: "int_ids (tasks (sample_app three_tasks))"
    by (simp add: sample_app_def three_tasks_def int_ids_def id_num_sample_task)
  have e: "int_ids (tasks (locked_app []))"
    by (simp add: locked_app_def int_ids_def)
  have i: "ids three_tasks = [1, 2, 3]"
    by (simp add: three_tasks_def id_num_sample_task)
  have m: "Max {1, 2, 3 :: int} = 3"
    by simp
  show ?thesis
    using h add_task_assigns_next_id [OF h, of "''d''" "''x''" "''t1''"]
      add_task_assigns_next_id [OF e, of "''d''" "''x''" "''t1''"]
    by (simp add: Let_def i m sample_app_def sample_disk_def locked_app_def three_tasks_def
        id_num_sample_task)
qed

section \<open>Distinct ids\<close>

lemma id_num_completed: "id_num (t(''completed'' \<mapsto> v)) = id_num t"
  by (simp add: id_num_def)

lemma mark_first_id_nums:
  "mark_first n ts = Found ts' \<Longrightarrow> map id_num ts' = map id_num ts"
  by (induction ts arbitrary: ts')
     (auto simp: id_num_completed split: option.splits if_splits scan.splits)

lemma ids_by_id_num: "ids ts = map the (filter (\<lambda>x. x \<noteq> None) (map id_num ts))"
  by (induction ts) (auto split: option.splits)

lemma ids_map_id_num: "map id_num xs = map id_num ys \<Longrightarrow> ids xs = ids ys"
  by (simp add: ids_by_id_num)

lemma int_ids_by_id_num: "int_ids ts = list_all (\<lambda>x. x \<noteq> None) (map id_num ts)"
  by (simp add: int_ids_def list_all_iff)

lemma int_ids_map_id_num: "map id_num xs = map id_num ys \<Longrightarrow> int_ids xs = int_ids ys"
  by (simp add: int_ids_by_id_num)

lemma tasks_complete_task:
  "tasks (fst (complete_task n a)) =
     (case mark_first n (tasks a) of Found ts \<Rightarrow> ts | Absent \<Rightarrow> tasks a | Key_error \<Rightarrow> tasks a)"
  by (simp add: complete_task_def save_tasks_def print_def split: scan.splits)

lemma complete_task_id_nums:
  "map id_num (tasks (fst (complete_task n a))) = map id_num (tasks a)"
  by (simp add: tasks_complete_task mark_first_id_nums split: scan.splits)

lemma unique_ids_complete_task:
  assumes "unique_ids (tasks a)"
  shows "unique_ids (tasks (fst (complete_task n a)))"
proof -
  have same: "map id_num (tasks (fst (complete_task n a))) = map id_num (tasks a)"
    by (rule complete_task_id_nums)
  show ?thesis
    using assms ids_map_id_num [OF same] int_ids_map_id_num [OF same]
    by (simp add: unique_ids_def)
qed

lemma unique_ids_delete_task:
  "unique_ids (tasks a) \<Longrightarrow> unique_ids (tasks (fst (delete_task n a)))"
  by (simp add: unique_ids_def tasks_delete_task int_ids_has_ids int_ids_filter ids_filter)

lemma tasks_add_task:
  "int_ids (tasks a) \<Longrightarrow>
   tasks (fst (add_task title description now a)) =
     tasks a @ [new_task ((if tasks a = [] then 0 else Max (set (ids (tasks a)))) + 1)
                  title description now]"
  by (simp add: add_task_int_ids save_tasks_def print_def)

lemma Max_plus_one_fresh: "(if ts = [] then 0 else Max (set (ids ts))) + 1 \<notin> set (ids ts)"
proof
  assume m: "(if ts = [] then 0 else Max (set (ids ts))) + 1 \<in> set (ids ts)"
  then have "ts \<noteq> []" by auto
  with m have "Max (set (ids ts)) + 1 \<in> set (ids ts)" by simp
  then have "Max (set (ids ts)) + 1 \<le> Max (set (ids ts))" by (intro Max_ge) simp_all
  then show False by simp
qed

lemma unique_ids_add_task:
  "unique_ids (tasks a) \<Longrightarrow> unique_ids (tasks (fst (add_task title description now a)))"
  by (simp add: unique_ids_def tasks_add_task int_ids_append ids_append id_num_new_task
      int_ids_def Max_plus_one_fresh)

lemma unique_ids_apply_mutation:
  "unique_ids (tasks a) \<Longrightarrow> unique_ids (tasks (fst (apply_mutation m a)))"
  by (cases m) (simp_all add: unique_ids_add_task unique_ids_complete_task unique_ids_delete_task)

lemma add_task_cases:
  assumes "int_ids (tasks a)"
  obtains a' where "add_task title description now a = (a', if writable (tasks_file a) then Returned else Exited 1)"
    and "tasks a' = tasks a @ [new_task ((if tasks a = [] then 0 else Max (set (ids (tasks a)))) + 1) title description now]"
    and "writable (tasks_file a') = writable (tasks_file a)"
  using assms by (cases "writable (tasks_file a)") (simp_all add: add_task_int_ids save_tasks_def print_def)

lemma run_adds:
  "int_ids (tasks a) \<Longrightarrow> list_all is_add ms \<Longrightarrow>
   \<exists>new. tasks (fst (run ms a)) = tasks a @ new \<and> int_ids new \<and> sorted_wrt (<) (ids new) \<and>
     (\<forall>k\<in>set (ids (tasks a)). \<forall>n\<in>set (ids new). k < n) \<and>
     (writable (tasks_file a) \<longrightarrow> snd (run ms a) = Returned \<and> length new = length ms)"
proof (induction ms arbitrary: a)
  case Nil
  show ?case by (simp add: int_ids_def)
next
  case (Cons m ms)
  from Cons.prems(2) have first: "is_add m" and rest: "list_all is_add ms"
    by simp_all
  from first obtain title description now where m: "m = Add title description now"
    by (cases m) (simp_all add: is_add_def)
  let ?n = "(if tasks a = [] then 0 else Max (set (ids (tasks a)))) + 1"
  let ?t = "new_task ?n title description now"
  from add_task_cases [OF Cons.prems(1), of title description now]
  obtain a' where step: "add_task title description now a = (a', if writable (tasks_file a) then Returned else Exited 1)"
    and ts: "tasks a' = tasks a @ [?t]"
    and w: "writable (tasks_file a') = writable (tasks_file a)"
    by blast
  have above: "\<forall>k\<in>set (ids (tasks a)). k < ?n"
  proof
    fix k assume k: "k \<in> set (ids (tasks a))"
    then have "tasks a \<noteq> []" by auto
    moreover have "k \<le> Max (set (ids (tasks a)))" using k by simp
    ultimately show "k < ?n" by simp
  qed
  show ?case
  proof (cases "writable (tasks_file a)")
    case False
    with step m have "run (m # ms) a = (a', Exited 1)" by simp
    with ts above False show ?thesis
      by (simp add: int_ids_def id_num_new_task)
  next
    case True
    with step m have r: "run (m # ms) a = run ms a'" by simp
    have wf: "int_ids (tasks a')"
      using Cons.prems(1) ts by (simp add: int_ids_append) (simp add: int_ids_def id_num_new_task)
    from Cons.IH [OF wf rest] obtain new
      where n1: "tasks (fst (run ms a')) = tasks a' @ new" and n2: "int_ids new"
        and n3: "sorted_wrt (<) (ids new)"
        and n4: "\<forall>k\<in>set (ids (tasks a')). \<forall>n\<in>set (ids new). k < n"
        and n5: "writable (tasks_file a') \<longrightarrow> snd (run ms a') = Returned \<and> length new = length ms"
      by blast
    have i: "ids (tasks a') = ids (tasks a) @ [?n]"
      using ts by (simp add: ids_append id_num_new_task)
    have "tasks (fst (run (m # ms) a)) = tasks a @ (?t # new)"
      using r n1 ts by simp
    moreover have "int_ids (?t # new)"
      using n2 by (simp add: int_ids_Cons id_num_new_task)
    moreover have "sorted_wrt (<) (ids (?t # new))"
      using n3 n4 i by (simp add: id_num_new_task)
    moreover have "\<forall>k\<in>set (ids (tasks a)). \<forall>n\<in>set (ids (?t # new)). k < n"
      using n4 i above by (simp add: id_num_new_task)
    moreover have "snd (run (m # ms) a) = Returned \<and> length (?t # new) = length (m # ms)"
      using n5 w True r by simp
    ultimately show ?thesis by blast
  qed
qed

text \<open>
  C2. A store whose tasks all have integer ids, pairwise distinct, is still such a store
  after any one operation (add, complete or delete), whatever its outcome. And a run of
  add calls on a store with integer ids keeps the tasks that were there and appends
  tasks whose ids are strictly increasing and greater than every id that was present;
  on a writable file every call returns and appends its task.
\<close>

theorem unique_ids_preserved:
  "(unique_ids (tasks a) \<longrightarrow> unique_ids (tasks (fst (apply_mutation m a)))) \<and>
   (int_ids (tasks a) \<and> list_all is_add ms \<longrightarrow>
      (let ts = tasks (fst (run ms a)); new = drop (length (tasks a)) ts
       in take (length (tasks a)) ts = tasks a \<and>
          int_ids new \<and>
          sorted_wrt (<) (ids new) \<and>
          (\<forall>k\<in>set (ids (tasks a)). \<forall>n\<in>set (ids new). k < n) \<and>
          (writable (tasks_file a) \<longrightarrow>
             snd (run ms a) = Returned \<and> length new = length ms)))"
proof -
  have "let ts = tasks (fst (run ms a)); new = drop (length (tasks a)) ts
       in take (length (tasks a)) ts = tasks a \<and>
          int_ids new \<and>
          sorted_wrt (<) (ids new) \<and>
          (\<forall>k\<in>set (ids (tasks a)). \<forall>n\<in>set (ids new). k < n) \<and>
          (writable (tasks_file a) \<longrightarrow>
             snd (run ms a) = Returned \<and> length new = length ms)"
    if "int_ids (tasks a)" and "list_all is_add ms"
  proof -
    from run_adds [OF that] obtain new
      where "tasks (fst (run ms a)) = tasks a @ new" and "int_ids new"
        and "sorted_wrt (<) (ids new)"
        and "\<forall>k\<in>set (ids (tasks a)). \<forall>n\<in>set (ids new). k < n"
        and "writable (tasks_file a) \<longrightarrow> snd (run ms a) = Returned \<and> length new = length ms"
      by blast
    then show ?thesis by (simp add: Let_def)
  qed
  then show ?thesis
    using unique_ids_apply_mutation [of a m] by blast
qed

lemma sample_task_id: "sample_task n title done ''id'' = Some (JInt n)"
  by (simp add: sample_task_def)

lemma bare_task_id: "bare_task n title ''id'' = Some (JInt n)"
  by (simp add: bare_task_def)

lemma new_task_id: "new_task n title description now ''id'' = Some (JInt n)"
  by (simp add: new_task_def)

lemmas sample_defs = sample_app_def sample_disk_def three_tasks_def locked_app_def write_only_disk_def

lemmas eval_defs = add_task_def next_id_def save_tasks_def print_def complete_task_def
  delete_task_def py_eq_int_def sample_task_id bare_task_id new_task_id id_num_sample_task id_num_bare_task id_num_new_task Let_def

theorem unique_ids_preserved_witness:
  "unique_ids (tasks (sample_app three_tasks)) \<and>
   unique_ids (tasks (fst (apply_mutation (Delete 2) (sample_app three_tasks)))) \<and>
   tasks (fst (apply_mutation (Delete 2) (sample_app three_tasks))) =
     [sample_task 1 ''a'' False, sample_task 3 ''c'' False] \<and>
   int_ids (tasks (sample_app three_tasks)) \<and>
   list_all is_add [Add ''x'' [] ''t1'', Add ''y'' [] ''t2''] \<and>
   writable (tasks_file (sample_app three_tasks)) \<and>
   snd (run [Add ''x'' [] ''t1'', Add ''y'' [] ''t2''] (sample_app three_tasks)) = Returned \<and>
   sorted_wrt (<) (ids (drop (length (tasks (sample_app three_tasks)))
     (tasks (fst (run [Add ''x'' [] ''t1'', Add ''y'' [] ''t2''] (sample_app three_tasks)))))) \<and>
   ids (tasks (fst (run [Add ''x'' [] ''t1'', Add ''y'' [] ''t2''] (sample_app three_tasks)))) =
     [1, 2, 3, 4, 5]"
proof -
  have u: "unique_ids (tasks (sample_app three_tasks))"
    by (simp add: unique_ids_def int_ids_def sample_defs id_num_sample_task)
  have i: "int_ids (tasks (sample_app three_tasks))"
    using u by (simp add: unique_ids_def)
  have l: "list_all is_add [Add ''x'' [] ''t1'', Add ''y'' [] ''t2'']"
    by (simp add: is_add_def)
  have w: "writable (tasks_file (sample_app three_tasks))"
    by (simp add: sample_defs)
  have d: "tasks (fst (apply_mutation (Delete 2) (sample_app three_tasks))) =
     [sample_task 1 ''a'' False, sample_task 3 ''c'' False]"
    by (simp add: sample_defs eval_defs)
  have r: "ids (tasks (fst (run [Add ''x'' [] ''t1'', Add ''y'' [] ''t2''] (sample_app three_tasks)))) =
     [1, 2, 3, 4, 5]"
    by (simp add: sample_defs eval_defs)
  show ?thesis
    using u i l w d r
      unique_ids_preserved [of "sample_app three_tasks" "Delete 2"
        "[Add ''x'' [] ''t1'', Add ''y'' [] ''t2'']"]
    by (simp add: Let_def)
qed

section \<open>Reading back what was saved\<close>

lemma has_ids_mark_first: "has_ids ts \<Longrightarrow> mark_first n ts \<noteq> Key_error"
  by (induction ts) (auto simp: has_ids_Cons split: scan.splits if_splits)

lemma absent_mark_first: "has_ids ts \<Longrightarrow> absent n ts \<Longrightarrow> mark_first n ts = Absent"
  by (induction ts) (auto simp: has_ids_Cons absent_def id_num_def py_eq_int_def)

lemma present_mark_first: "has_ids ts \<Longrightarrow> \<not> absent n ts \<Longrightarrow> \<exists>ts'. mark_first n ts = Found ts'"
  by (induction ts) (auto simp: has_ids_Cons absent_def id_num_def py_eq_int_def)

lemma tasks_TodoApp_TodoApp: "tasks (TodoApp (tasks_file (TodoApp d))) = tasks (TodoApp d)"
  by (simp add: TodoApp_def)

lemma add_task_Returned:
  "add_task title description now a = (a', Returned) \<Longrightarrow>
   tasks_file a' = (tasks_file a)\<lparr>content := Some (Json_array (tasks a'))\<rparr>"
  by (auto simp: add_task_def save_tasks_def print_def split: option.splits if_splits)

lemma complete_task_Returned:
  "complete_task n a = (a', Returned) \<Longrightarrow>
   tasks_file a' = (tasks_file a)\<lparr>content := Some (Json_array (tasks a'))\<rparr> \<or> (tasks a' = tasks a \<and> tasks_file a' = tasks_file a)"
  by (auto simp: complete_task_def save_tasks_def print_def
      split: scan.splits if_splits)

lemma delete_task_Returned:
  assumes "delete_task n a = (a', Returned)"
  shows "tasks_file a' = (tasks_file a)\<lparr>content := Some (Json_array (tasks a'))\<rparr> \<or> (tasks a' = tasks a \<and> tasks_file a' = tasks_file a)"
proof (cases "has_ids (tasks a)")
  case False
  with assms show ?thesis by (simp add: delete_task_raises)
next
  case True
  show ?thesis
  proof (cases "absent n (tasks a)")
    case True
    with \<open>has_ids (tasks a)\<close> assms show ?thesis
      by (auto simp: delete_task_absent)
  next
    case False
    with \<open>has_ids (tasks a)\<close> assms show ?thesis
      by (auto simp: delete_task_present save_tasks_def print_def split: if_splits)
  qed
qed

lemma apply_mutation_Returned:
  "apply_mutation m a = (a', Returned) \<Longrightarrow>
   tasks_file a' = (tasks_file a)\<lparr>content := Some (Json_array (tasks a'))\<rparr> \<or> (tasks a' = tasks a \<and> tasks_file a' = tasks_file a)"
  by (cases m) (auto dest: add_task_Returned complete_task_Returned delete_task_Returned)

lemma reload_apply_mutation:
  assumes "readable (tasks_file a)" and "tasks (TodoApp (tasks_file a)) = tasks a"
    and "apply_mutation m a = (a', Returned)"
  shows "readable (tasks_file a') \<and> tasks (TodoApp (tasks_file a')) = tasks a'"
  using apply_mutation_Returned [OF assms(3)] assms(1,2)
  by (auto simp: TodoApp_def load_tasks_def read_json_def)

lemma reload_run:
  "readable (tasks_file a) \<Longrightarrow> tasks (TodoApp (tasks_file a)) = tasks a \<Longrightarrow>
   run ms a = (a', Returned) \<Longrightarrow> tasks (TodoApp (tasks_file a')) = tasks a'"
proof (induction ms arbitrary: a)
  case Nil
  then show ?case by simp
next
  case (Cons m ms)
  obtain a1 r where step: "apply_mutation m a = (a1, r)"
    by (cases "apply_mutation m a")
  with Cons.prems(3) have r: "r = Returned" and rest: "run ms a1 = (a', Returned)"
    by (cases r; simp)+
  from reload_apply_mutation [OF Cons.prems(1,2) step [unfolded r]]
  show ?case using Cons.IH rest by blast
qed

subsection \<open>Runs that return\<close>

lemma apply_mutation_returns:
  assumes "int_ids (tasks a)" and "writable (tasks_file a)"
  shows "\<exists>a'. apply_mutation m a = (a', Returned) \<and> int_ids (tasks a') \<and> writable (tasks_file a')"
proof (cases m)
  case (Add title description now)
  from add_task_cases [OF assms(1), of title description now] obtain a'
    where step: "add_task title description now a =
        (a', if writable (tasks_file a) then Returned else Exited 1)"
      and ts: "tasks a' = tasks a @
        [new_task ((if tasks a = [] then 0 else Max (set (ids (tasks a)))) + 1) title description now]"
      and w: "writable (tasks_file a') = writable (tasks_file a)"
    by blast
  have "int_ids (tasks a')"
    unfolding ts int_ids_append using assms(1) by (simp add: int_ids_def id_num_new_task)
  with step w assms(2) Add show ?thesis by simp
next
  case (Complete n)
  have h: "has_ids (tasks a)" using assms(1) by (rule int_ids_has_ids)
  show ?thesis
  proof (cases "mark_first n (tasks a)")
    case (Found ts)
    then have "int_ids ts"
      using assms(1) int_ids_map_id_num [OF mark_first_id_nums [OF Found]] by simp
    with Found Complete assms(2) show ?thesis
      by (simp add: complete_task_def save_tasks_def print_def)
  next
    case Absent
    with Complete assms show ?thesis by (simp add: complete_task_def print_def)
  next
    case Key_error
    with has_ids_mark_first [OF h, of n] show ?thesis by simp
  qed
next
  case (Delete n)
  have h: "has_ids (tasks a)" using assms(1) by (rule int_ids_has_ids)
  show ?thesis
  proof (cases "absent n (tasks a)")
    case True
    with Delete assms h show ?thesis by (simp add: delete_task_absent)
  next
    case False
    with Delete assms h show ?thesis
      by (simp add: delete_task_present save_tasks_def print_def int_ids_filter)
  qed
qed

lemma run_returns:
  "int_ids (tasks a) \<Longrightarrow> writable (tasks_file a) \<Longrightarrow> snd (run ms a) = Returned"
proof (induction ms arbitrary: a)
  case Nil
  show ?case by simp
next
  case (Cons m ms)
  from apply_mutation_returns [OF Cons.prems, of m] obtain a'
    where "apply_mutation m a = (a', Returned)" and "int_ids (tasks a')" and "writable (tasks_file a')"
    by blast
  with Cons.IH [of a'] show ?case by simp
qed

lemma sample_task_completed:
  "(sample_task n title done)(''completed'' \<mapsto> JBool True) = sample_task n title True"
  by (rule ext) (simp add: sample_task_def)

text \<open>
  The round trip as C3 states it fails on a file that can be written and cannot be read:
  the store starts empty (with a diagnostic), one add saves and returns, and a store
  constructed again from the same path is empty, while the one in memory holds the task.
\<close>

theorem round_trip_write_only_counterexample:
  "snd (run [Add ''a'' [] ''t1''] (TodoApp write_only_disk)) = Returned \<and>
   tasks (fst (run [Add ''a'' [] ''t1''] (TodoApp write_only_disk))) = [new_task 1 ''a'' [] ''t1''] \<and>
   tasks (TodoApp (tasks_file (fst (run [Add ''a'' [] ''t1''] (TodoApp write_only_disk))))) = [] \<and>
   tasks (TodoApp (tasks_file (fst (run [Add ''a'' [] ''t1''] (TodoApp write_only_disk))))) \<noteq>
     tasks (fst (run [Add ''a'' [] ''t1''] (TodoApp write_only_disk)))"
  by (simp add: TodoApp_def load_tasks_def read_json_def write_only_disk_def add_task_def
      next_id_def save_tasks_def print_def)

text \<open>
  C3, amended. When the file can be read: a store is constructed from the path, a
  sequence of mutations runs and every call returns (no save fails); then a store
  constructed again from the same path holds the sequence that is in memory, in order
  and in every field. When moreover the file can be written and the loaded tasks have
  integer ids, every sequence of mutations does return, so the round trip holds for it.
\<close>

theorem round_trip_readable:
  "(readable d \<and> run ms (TodoApp d) = (a, Returned) \<longrightarrow>
      tasks (TodoApp (tasks_file a)) = tasks a) \<and>
   (readable d \<and> writable d \<and> int_ids (tasks (TodoApp d)) \<longrightarrow>
      snd (run ms (TodoApp d)) = Returned \<and>
      tasks (TodoApp (tasks_file (fst (run ms (TodoApp d))))) = tasks (fst (run ms (TodoApp d))))"
proof -
  have start: "tasks (TodoApp (tasks_file (TodoApp d))) = tasks (TodoApp d)"
    by (rule tasks_TodoApp_TodoApp)
  have path: "tasks_file (TodoApp d) = d"
    by (simp add: TodoApp_def)
  have again: "tasks (TodoApp (tasks_file b)) = tasks b"
    if "readable d" and "run ms (TodoApp d) = (b, Returned)" for b
    using reload_run [OF _ start that(2)] that(1) path by simp
  have "snd (run ms (TodoApp d)) = Returned"
    if "writable d" and "int_ids (tasks (TodoApp d))"
    using run_returns [of "TodoApp d" ms] that path by simp
  then have total: "snd (run ms (TodoApp d)) = Returned \<and>
      tasks (TodoApp (tasks_file (fst (run ms (TodoApp d))))) = tasks (fst (run ms (TodoApp d)))"
    if "readable d" and "writable d" and "int_ids (tasks (TodoApp d))"
  proof -
    have r: "snd (run ms (TodoApp d)) = Returned" using that by (simp add: \<open>\<lbrakk>writable d; int_ids (tasks (TodoApp d))\<rbrakk> \<Longrightarrow> snd (run ms (TodoApp d)) = Returned\<close>)
    then have "run ms (TodoApp d) = (fst (run ms (TodoApp d)), Returned)"
      by (simp add: prod_eq_iff)
    from again [OF that(1) this] r show ?thesis by simp
  qed
  from again total show ?thesis by blast
qed

theorem round_trip_readable_witness:
  "readable (sample_disk three_tasks) \<and> writable (sample_disk three_tasks) \<and>
   int_ids (tasks (TodoApp (sample_disk three_tasks))) \<and>
   snd (run [Add ''x'' [] ''t1'', Complete 1, Delete 2, Delete 9] (TodoApp (sample_disk three_tasks))) =
     Returned \<and>
   tasks (fst (run [Add ''x'' [] ''t1'', Complete 1, Delete 2, Delete 9]
     (TodoApp (sample_disk three_tasks)))) =
     [sample_task 1 ''a'' True, sample_task 3 ''c'' False, new_task 4 ''x'' [] ''t1''] \<and>
   tasks (TodoApp (tasks_file (fst (run [Add ''x'' [] ''t1'', Complete 1, Delete 2, Delete 9]
     (TodoApp (sample_disk three_tasks)))))) =
     [sample_task 1 ''a'' True, sample_task 3 ''c'' False, new_task 4 ''x'' [] ''t1'']"
proof -
  let ?d = "sample_disk three_tasks"
  let ?ms = "[Add ''x'' [] ''t1'', Complete 1, Delete 2, Delete 9]"
  have start: "TodoApp ?d = sample_app three_tasks"
    by (simp add: TodoApp_def load_tasks_def read_json_def sample_defs)
  have rw: "readable ?d" "writable ?d"
    by (simp_all add: sample_defs)
  have i: "int_ids (tasks (TodoApp ?d))"
    by (simp add: start) (simp add: sample_defs int_ids_def id_num_sample_task)
  have t: "tasks (fst (run ?ms (TodoApp ?d))) =
      [sample_task 1 ''a'' True, sample_task 3 ''c'' False, new_task 4 ''x'' [] ''t1'']"
    by (simp add: start) (simp add: sample_defs eval_defs sample_task_completed)
  show ?thesis
    using rw i t round_trip_readable [of ?d ?ms] by simp
qed

section \<open>Ids that are not in the store\<close>

lemma complete_task_absent:
  "has_ids (tasks a) \<Longrightarrow> absent n (tasks a) \<Longrightarrow>
   complete_task n a = (a\<lparr>out := out a @ [Not_found n]\<rparr>, Returned)"
  by (simp add: complete_task_def absent_mark_first print_def)

text \<open>
  C4. In a store whose tasks all have an id, for an id \<open>n\<close> that no task has (whatever
  its sign), \<open>complete_task n\<close> and \<open>delete_task n\<close> return after printing that task
  \<open>n\<close> was not found, and that line is the whole effect: the sequence, the file and
  stderr are as before. Nothing is saved: the calls return also when the file cannot be
  written, where a save would end the process.
\<close>

theorem not_found_changes_nothing:
  assumes "has_ids (tasks a)" and "absent n (tasks a)"
  shows "complete_task n a = (a\<lparr>out := out a @ [Not_found n]\<rparr>, Returned) \<and>
         delete_task n a = (a\<lparr>out := out a @ [Not_found n]\<rparr>, Returned) \<and>
         tasks (fst (complete_task n a)) = tasks a \<and>
         tasks (fst (delete_task n a)) = tasks a \<and>
         tasks_file (fst (complete_task n a)) = tasks_file a \<and>
         tasks_file (fst (delete_task n a)) = tasks_file a \<and>
         err (fst (complete_task n a)) = err a \<and>
         err (fst (delete_task n a)) = err a"
  using assms by (simp add: complete_task_absent delete_task_absent)

theorem not_found_changes_nothing_witness:
  "has_ids (tasks (locked_app three_tasks)) \<and>
   absent 0 (tasks (locked_app three_tasks)) \<and>
   absent (- 1) (tasks (locked_app three_tasks)) \<and>
   absent 999 (tasks (locked_app three_tasks)) \<and>
   \<not> writable (tasks_file (locked_app three_tasks)) \<and>
   complete_task 0 (locked_app three_tasks) =
     ((locked_app three_tasks)\<lparr>out := [Not_found 0]\<rparr>, Returned) \<and>
   delete_task 0 (locked_app three_tasks) =
     ((locked_app three_tasks)\<lparr>out := [Not_found 0]\<rparr>, Returned) \<and>
   complete_task (- 1) (locked_app three_tasks) =
     ((locked_app three_tasks)\<lparr>out := [Not_found (- 1)]\<rparr>, Returned) \<and>
   delete_task (- 1) (locked_app three_tasks) =
     ((locked_app three_tasks)\<lparr>out := [Not_found (- 1)]\<rparr>, Returned) \<and>
   delete_task 999 (locked_app three_tasks) =
     ((locked_app three_tasks)\<lparr>out := [Not_found 999]\<rparr>, Returned)"
proof -
  have h: "has_ids (tasks (locked_app three_tasks))"
    by (simp add: has_ids_def sample_defs sample_task_id)
  have a: "absent 0 (tasks (locked_app three_tasks))"
    "absent (- 1) (tasks (locked_app three_tasks))"
    "absent 999 (tasks (locked_app three_tasks))"
    by (simp_all add: absent_def sample_defs id_num_sample_task)
  have o: "out (locked_app three_tasks) = []" "\<not> writable (tasks_file (locked_app three_tasks))"
    by (simp_all add: locked_app_def)
  show ?thesis
    using h a o not_found_changes_nothing [OF h a(1)] not_found_changes_nothing [OF h a(2)]
      not_found_changes_nothing [OF h a(3)]
    by simp
qed

section \<open>Listing\<close>

lemma printable_Cons:
  "printable (t # ts) = (t ''id'' \<noteq> None \<and> t ''title'' \<noteq> None \<and> printable ts)"
  by (simp add: printable_def)

lemma show_tasks_printable:
  "printable ts \<Longrightarrow>
   show_tasks ts a = (a\<lparr>out := out a @ concat (map task_lines ts)\<rparr>, Returned)"
proof (induction ts arbitrary: a)
  case Nil
  show ?case by simp
next
  case (Cons t ts)
  from Cons.prems obtain i ti where t: "t ''id'' = Some i" "t ''title'' = Some ti"
    and rest: "printable ts"
    by (auto simp: printable_Cons)
  show ?case
    using t by (simp add: Cons.IH [OF rest] task_lines_def print_def Let_def)
qed

lemma show_tasks_frame:
  "tasks (fst (show_tasks ts a)) = tasks a \<and>
   tasks_file (fst (show_tasks ts a)) = tasks_file a \<and>
   err (fst (show_tasks ts a)) = err a"
  by (induction ts arbitrary: a) (auto simp: print_def Let_def split: option.splits)

lemma not_completed_missing: "t ''completed'' = None \<Longrightarrow> \<not> is_completed t"
  by (simp add: is_completed_def get_or_def)

lemma is_completed_bool: "t ''completed'' = Some (JBool b) \<Longrightarrow> is_completed t = b"
  by (simp add: is_completed_def get_or_def)

text \<open>
  C5. \<open>list_tasks\<close> on an empty sequence prints the empty-store message and nothing
  else. Otherwise it selects every task when \<open>show_completed\<close> is true, and else the
  tasks that are not completed, where a task with no \<^verbatim>\<open>"completed"\<close> key is not
  completed; an empty selection gets the message for no incomplete tasks, a different
  one. A selection whose tasks all have an id and a title is printed between header
  and footer, task by task in sequence order.
\<close>

theorem list_tasks_selection:
  "(tasks a = [] \<longrightarrow>
      list_tasks show_completed a = (a\<lparr>out := out a @ [No_tasks_found]\<rparr>, Returned)) \<and>
   (tasks a \<noteq> [] \<and> selected show_completed (tasks a) = [] \<longrightarrow>
      list_tasks show_completed a = (a\<lparr>out := out a @ [No_incomplete_tasks_found]\<rparr>, Returned)) \<and>
   (selected show_completed (tasks a) \<noteq> [] \<and> printable (selected show_completed (tasks a)) \<longrightarrow>
      list_tasks show_completed a =
        (a\<lparr>out := out a @ [List_header, List_rule] @
             concat (map task_lines (selected show_completed (tasks a))) @ [List_rule]\<rparr>,
         Returned)) \<and>
   selected True (tasks a) = tasks a \<and>
   selected False (tasks a) = filter (\<lambda>t. \<not> is_completed t) (tasks a) \<and>
   (\<forall>t. t ''completed'' = None \<longrightarrow> \<not> is_completed t) \<and>
   (\<forall>t b. t ''completed'' = Some (JBool b) \<longrightarrow> is_completed t = b)"
proof -
  have empty: "list_tasks show_completed a = (a\<lparr>out := out a @ [No_tasks_found]\<rparr>, Returned)"
    if "tasks a = []"
    using that by (simp add: list_tasks_def print_def)
  have none: "list_tasks show_completed a =
      (a\<lparr>out := out a @ [No_incomplete_tasks_found]\<rparr>, Returned)"
    if "tasks a \<noteq> []" and "selected show_completed (tasks a) = []"
    using that by (cases show_completed) (simp_all add: list_tasks_def selected_def print_def)
  have some: "list_tasks show_completed a =
      (a\<lparr>out := out a @ [List_header, List_rule] @
           concat (map task_lines (selected show_completed (tasks a))) @ [List_rule]\<rparr>,
       Returned)"
    if ne: "selected show_completed (tasks a) \<noteq> []"
      and pr: "printable (selected show_completed (tasks a))"
  proof -
    from ne have "tasks a \<noteq> []" by (auto simp: selected_def split: if_splits)
    moreover have "(if \<not> show_completed then filter (\<lambda>t. \<not> is_completed t) (tasks a) else tasks a) =
        selected show_completed (tasks a)"
      by (simp add: selected_def)
    ultimately show ?thesis
      using ne by (simp add: list_tasks_def Let_def show_tasks_printable [OF pr] print_def)
  qed
  show ?thesis
    using empty none some
    by (simp add: selected_def not_completed_missing is_completed_bool)
qed

lemma is_completed_sample_task: "is_completed (sample_task n title done) = done"
  by (simp add: is_completed_def get_or_def sample_task_def)

lemma is_completed_bare_task: "\<not> is_completed (bare_task n title)"
  by (simp add: is_completed_def get_or_def bare_task_def)

lemma is_completed_new_task: "\<not> is_completed (new_task n title description now)"
  by (simp add: is_completed_def get_or_def new_task_def)

lemma task_lines_sample_task:
  "task_lines (sample_task n title done) = [Task_line done (JInt n) (JStr title)]"
  by (simp add: task_lines_def is_completed_def get_or_def sample_task_def)

lemma task_lines_bare_task:
  "task_lines (bare_task n title) = [Task_line False (JInt n) (JStr title)]"
  by (simp add: task_lines_def is_completed_def get_or_def bare_task_def)

lemma task_lines_new_task:
  "task_lines (new_task n title description now) =
     Task_line False (JInt n) (JStr title) #
     (if description = [] then [] else [Description_line (JStr description)])"
  by (simp add: task_lines_def is_completed_def get_or_def new_task_def)

theorem list_tasks_selection_witness:
  "tasks (sample_app []) = [] \<and>
   list_tasks False (sample_app []) = ((sample_app [])\<lparr>out := [No_tasks_found]\<rparr>, Returned) \<and>
   list_tasks True (sample_app []) = ((sample_app [])\<lparr>out := [No_tasks_found]\<rparr>, Returned) \<and>
   tasks (sample_app [sample_task 1 ''a'' True]) \<noteq> [] \<and>
   selected False (tasks (sample_app [sample_task 1 ''a'' True])) = [] \<and>
   list_tasks False (sample_app [sample_task 1 ''a'' True]) =
     ((sample_app [sample_task 1 ''a'' True])\<lparr>out := [No_incomplete_tasks_found]\<rparr>, Returned) \<and>
   selected False (tasks (sample_app mixed_tasks)) =
     [bare_task 2 ''b'', new_task 3 ''c'' ''note'' ''t0''] \<and>
   printable (selected False (tasks (sample_app mixed_tasks))) \<and>
   list_tasks False (sample_app mixed_tasks) =
     ((sample_app mixed_tasks)\<lparr>out :=
         [List_header, List_rule,
          Task_line False (JInt 2) (JStr ''b''),
          Task_line False (JInt 3) (JStr ''c''), Description_line (JStr ''note''),
          List_rule]\<rparr>, Returned) \<and>
   printable (selected True (tasks (sample_app mixed_tasks))) \<and>
   list_tasks True (sample_app mixed_tasks) =
     ((sample_app mixed_tasks)\<lparr>out :=
         [List_header, List_rule,
          Task_line True (JInt 1) (JStr ''a''),
          Task_line False (JInt 2) (JStr ''b''),
          Task_line False (JInt 3) (JStr ''c''), Description_line (JStr ''note''),
          List_rule]\<rparr>, Returned) \<and>
   bare_task 2 ''b'' ''completed'' = None \<and>
   \<not> is_completed (bare_task 2 ''b'') \<and>
   sample_task 1 ''a'' True ''completed'' = Some (JBool True) \<and>
   is_completed (sample_task 1 ''a'' True)"
proof -
  have o: "out (sample_app ts) = []" "tasks (sample_app ts) = ts" for ts
    by (simp_all add: sample_app_def)
  have s: "selected False mixed_tasks = [bare_task 2 ''b'', new_task 3 ''c'' ''note'' ''t0'']"
    "selected True mixed_tasks = mixed_tasks"
    "selected False [sample_task 1 ''a'' True] = []"
    by (simp_all add: selected_def mixed_tasks_def is_completed_sample_task
        is_completed_bare_task is_completed_new_task)
  have p: "printable [bare_task 2 ''b'', new_task 3 ''c'' ''note'' ''t0'']"
    "printable mixed_tasks"
    by (simp_all add: printable_def mixed_tasks_def sample_task_def bare_task_def new_task_def)
  have k: "bare_task 2 ''b'' ''completed'' = None"
    "sample_task 1 ''a'' True ''completed'' = Some (JBool True)"
    by (simp_all add: bare_task_def sample_task_def)
  have l: "concat (map task_lines [bare_task 2 ''b'', new_task 3 ''c'' ''note'' ''t0'']) =
      [Task_line False (JInt 2) (JStr ''b''),
       Task_line False (JInt 3) (JStr ''c''), Description_line (JStr ''note'')]"
    "concat (map task_lines mixed_tasks) =
      [Task_line True (JInt 1) (JStr ''a''), Task_line False (JInt 2) (JStr ''b''),
       Task_line False (JInt 3) (JStr ''c''), Description_line (JStr ''note'')]"
    by (simp_all add: mixed_tasks_def task_lines_sample_task task_lines_bare_task
        task_lines_new_task)
  have e: "list_tasks False (sample_app []) = ((sample_app [])\<lparr>out := [No_tasks_found]\<rparr>, Returned)"
    "list_tasks True (sample_app []) = ((sample_app [])\<lparr>out := [No_tasks_found]\<rparr>, Returned)"
    using list_tasks_selection [of "sample_app []" False]
      list_tasks_selection [of "sample_app []" True]
    by (simp_all add: o)
  have n: "list_tasks False (sample_app [sample_task 1 ''a'' True]) =
      ((sample_app [sample_task 1 ''a'' True])\<lparr>out := [No_incomplete_tasks_found]\<rparr>, Returned)"
    using list_tasks_selection [of "sample_app [sample_task 1 ''a'' True]" False]
    by (simp add: o s)
  have ne: "mixed_tasks \<noteq> []"
    by (simp add: mixed_tasks_def)
  have f: "list_tasks False (sample_app mixed_tasks) =
     ((sample_app mixed_tasks)\<lparr>out :=
         [List_header, List_rule,
          Task_line False (JInt 2) (JStr ''b''),
          Task_line False (JInt 3) (JStr ''c''), Description_line (JStr ''note''),
          List_rule]\<rparr>, Returned)"
    using list_tasks_selection [of "sample_app mixed_tasks" False] p
    by (simp add: o s l task_lines_sample_task task_lines_bare_task task_lines_new_task)
  have t: "list_tasks True (sample_app mixed_tasks) =
     ((sample_app mixed_tasks)\<lparr>out :=
         [List_header, List_rule,
          Task_line True (JInt 1) (JStr ''a''),
          Task_line False (JInt 2) (JStr ''b''),
          Task_line False (JInt 3) (JStr ''c''), Description_line (JStr ''note''),
          List_rule]\<rparr>, Returned)"
    using list_tasks_selection [of "sample_app mixed_tasks" True] p ne
    by (simp add: o s l task_lines_sample_task task_lines_bare_task task_lines_new_task)
  show ?thesis
    using e n f t s p k
    by (simp add: o is_completed_sample_task is_completed_bare_task)
qed

section \<open>Completing twice\<close>

lemma mark_first_again: "mark_first n ts = Found ts' \<Longrightarrow> mark_first n ts' = Found ts'"
proof (induction ts arbitrary: ts')
  case Nil
  then show ?case by simp
next
  case (Cons t ts)
  from Cons.prems obtain v where v: "t ''id'' = Some v"
    by (auto split: option.splits)
  show ?case
  proof (cases "py_eq_int v n")
    case True
    with Cons.prems v have "ts' = t(''completed'' \<mapsto> JBool True) # ts" by simp
    with v True show ?thesis by simp
  next
    case False
    with Cons.prems v obtain r where r: "mark_first n ts = Found r" and ts': "ts' = t # r"
      by (auto split: scan.splits)
    with Cons.IH [OF r] v False show ?thesis by simp
  qed
qed

lemma complete_task_Found:
  "mark_first n (tasks a) = Found ts \<Longrightarrow> writable (tasks_file a) \<Longrightarrow>
   complete_task n a =
     (a\<lparr>tasks := ts, tasks_file := (tasks_file a)\<lparr>content := Some (Json_array ts)\<rparr>,
        out := out a @ [Marked_completed n]\<rparr>, Returned)"
  by (simp add: complete_task_def save_tasks_def print_def)

text \<open>
  C6. In a store whose tasks all have an id, one of them the id \<open>n\<close>, and whose file can
  be written (a failing save ends the process), \<open>complete_task n\<close> called twice returns
  both times, reports both times that task \<open>n\<close> was marked as completed, and the second
  call leaves the sequence and the file as the first call left them.
\<close>

theorem complete_task_idempotent:
  assumes "has_ids (tasks a)" and "\<not> absent n (tasks a)" and "writable (tasks_file a)"
  shows "snd (complete_task n a) = Returned \<and>
         snd (complete_task n (fst (complete_task n a))) = Returned \<and>
         tasks (fst (complete_task n (fst (complete_task n a)))) = tasks (fst (complete_task n a)) \<and>
         tasks_file (fst (complete_task n (fst (complete_task n a)))) =
           tasks_file (fst (complete_task n a)) \<and>
         out (fst (complete_task n a)) = out a @ [Marked_completed n] \<and>
         out (fst (complete_task n (fst (complete_task n a)))) =
           out a @ [Marked_completed n, Marked_completed n]"
proof -
  from present_mark_first [OF assms(1,2)] obtain ts where f: "mark_first n (tasks a) = Found ts"
    by blast
  let ?a1 = "a\<lparr>tasks := ts, tasks_file := (tasks_file a)\<lparr>content := Some (Json_array ts)\<rparr>,
        out := out a @ [Marked_completed n]\<rparr>"
  have one: "complete_task n a = (?a1, Returned)"
    using f assms(3) by (rule complete_task_Found)
  have "mark_first n (tasks ?a1) = Found ts"
    using mark_first_again [OF f] by simp
  moreover have "writable (tasks_file ?a1)"
    using assms(3) by simp
  ultimately have two: "complete_task n ?a1 =
      (?a1\<lparr>tasks := ts, tasks_file := (tasks_file ?a1)\<lparr>content := Some (Json_array ts)\<rparr>,
        out := out ?a1 @ [Marked_completed n]\<rparr>, Returned)"
    by (rule complete_task_Found)
  show ?thesis
    unfolding one fst_conv snd_conv two by simp
qed

theorem complete_task_idempotent_witness:
  "has_ids (tasks (sample_app three_tasks)) \<and>
   \<not> absent 1 (tasks (sample_app three_tasks)) \<and>
   writable (tasks_file (sample_app three_tasks)) \<and>
   snd (complete_task 1 (sample_app three_tasks)) = Returned \<and>
   snd (complete_task 1 (fst (complete_task 1 (sample_app three_tasks)))) = Returned \<and>
   tasks (fst (complete_task 1 (sample_app three_tasks))) =
     [sample_task 1 ''a'' True, sample_task 2 ''b'' True, sample_task 3 ''c'' False] \<and>
   tasks (fst (complete_task 1 (fst (complete_task 1 (sample_app three_tasks))))) =
     [sample_task 1 ''a'' True, sample_task 2 ''b'' True, sample_task 3 ''c'' False] \<and>
   out (fst (complete_task 1 (fst (complete_task 1 (sample_app three_tasks))))) =
     [Marked_completed 1, Marked_completed 1]"
proof -
  have h: "has_ids (tasks (sample_app three_tasks))"
    by (simp add: has_ids_def sample_defs sample_task_id)
  have p: "\<not> absent 1 (tasks (sample_app three_tasks))"
    by (simp add: absent_def sample_defs id_num_sample_task)
  have w: "writable (tasks_file (sample_app three_tasks))"
    by (simp add: sample_defs)
  have t: "tasks (fst (complete_task 1 (sample_app three_tasks))) =
     [sample_task 1 ''a'' True, sample_task 2 ''b'' True, sample_task 3 ''c'' False]"
    by (simp add: sample_defs eval_defs sample_task_completed)
  have o: "out (sample_app three_tasks) = []"
    by (simp add: sample_app_def)
  show ?thesis
    using h p w t o complete_task_idempotent [OF h p w] by simp
qed

section \<open>Loading\<close>



section \<open>Listing changes nothing\<close>

text \<open>
  C8. \<open>list_tasks\<close> leaves the sequence in memory and the backing file (its content and
  its permissions) exactly as they were, for either value of \<open>show_completed\<close> and
  however the call ends; stderr is untouched as well. It writes to stdout only.
\<close>

theorem list_tasks_reads_only:
  "tasks (fst (list_tasks show_completed a)) = tasks a \<and>
   tasks_file (fst (list_tasks show_completed a)) = tasks_file a \<and>
   err (fst (list_tasks show_completed a)) = err a"
proof -
  let ?shown = "if \<not> show_completed then filter (\<lambda>t. \<not> is_completed t) (tasks a) else tasks a"
  let ?start = "print List_rule (print List_header a)"
  obtain a' r where s: "show_tasks ?shown ?start = (a', r)"
    by (cases "show_tasks ?shown ?start")
  from show_tasks_frame [of ?shown ?start] s
  have "tasks a' = tasks a \<and> tasks_file a' = tasks_file a \<and> err a' = err a"
    by (simp add: print_def)
  with s show ?thesis
    by (cases r) (simp_all add: list_tasks_def Let_def print_def)
qed

theorem list_tasks_reads_only_witness:
  "tasks (fst (list_tasks False (locked_app mixed_tasks))) = mixed_tasks \<and>
   tasks_file (fst (list_tasks False (locked_app mixed_tasks))) =
     \<lparr>content = Some (Json_array mixed_tasks), readable = True, writable = False\<rparr> \<and>
   tasks (fst (list_tasks True (sample_app three_tasks))) = three_tasks \<and>
   tasks_file (fst (list_tasks True (sample_app three_tasks))) = sample_disk three_tasks \<and>
   err (fst (list_tasks True (sample_app three_tasks))) = []"
  using list_tasks_reads_only [of False "locked_app mixed_tasks"]
    list_tasks_reads_only [of True "sample_app three_tasks"]
  by (simp add: locked_app_def sample_app_def)

section \<open>What complete and delete leave alone\<close>

lemma has_ids_append: "has_ids (xs @ ys) = (has_ids xs \<and> has_ids ys)"
  by (simp add: has_ids_def)

lemma mark_first_split:
  "has_ids pre \<Longrightarrow> absent n pre \<Longrightarrow> id_num t = Some n \<Longrightarrow>
   mark_first n (pre @ t # post) = Found (pre @ t(''completed'' \<mapsto> JBool True) # post)"
proof (induction pre)
  case Nil
  then show ?case by (auto simp: id_num_def py_eq_int_def split: option.splits)
next
  case (Cons p pre)
  then show ?case
    by (auto simp: has_ids_Cons absent_def id_num_def py_eq_int_def)
qed

lemma tasks_complete_task_split:
  assumes "tasks a = pre @ t # post" and "has_ids pre" and "absent n pre" and "id_num t = Some n"
  shows "tasks (fst (complete_task n a)) = pre @ t(''completed'' \<mapsto> JBool True) # post"
  using mark_first_split [OF assms(2,3,4), of post] assms(1)
  by (simp add: tasks_complete_task)

text \<open>
  C9. When \<open>t\<close> is the first task of the sequence whose id is \<open>n\<close> (the tasks before it
  have ids, none of them \<open>n\<close>), \<open>complete_task n\<close> leaves a sequence of the same length
  in which every other position holds the task it held, and the task at the position of
  \<open>t\<close> has \<^verbatim>\<open>"completed"\<close> true and every other key (id, title, description, created_at
  among them) as in \<open>t\<close>. When all tasks have ids, \<open>delete_task n\<close> leaves the tasks whose
  id is not \<open>n\<close>, unchanged and in their order. Both hold whether or not the save
  that follows succeeds.
\<close>

theorem mutation_frame:
  "(tasks a = pre @ t # post \<and> has_ids pre \<and> absent n pre \<and> id_num t = Some n \<longrightarrow>
      (let ts = tasks (fst (complete_task n a))
       in ts = pre @ t(''completed'' \<mapsto> JBool True) # post \<and>
          length ts = length (tasks a) \<and>
          (\<forall>i < length ts. i \<noteq> length pre \<longrightarrow> ts ! i = tasks a ! i) \<and>
          (ts ! length pre) ''completed'' = Some (JBool True) \<and>
          (\<forall>k. k \<noteq> ''completed'' \<longrightarrow> (ts ! length pre) k = t k))) \<and>
   (has_ids (tasks a) \<longrightarrow>
      tasks (fst (delete_task n a)) = filter (\<lambda>t. id_num t \<noteq> Some n) (tasks a))"
proof -
  have "let ts = tasks (fst (complete_task n a))
       in ts = pre @ t(''completed'' \<mapsto> JBool True) # post \<and>
          length ts = length (tasks a) \<and>
          (\<forall>i < length ts. i \<noteq> length pre \<longrightarrow> ts ! i = tasks a ! i) \<and>
          (ts ! length pre) ''completed'' = Some (JBool True) \<and>
          (\<forall>k. k \<noteq> ''completed'' \<longrightarrow> (ts ! length pre) k = t k)"
    if split: "tasks a = pre @ t # post" and pre: "has_ids pre" "absent n pre"
      and t: "id_num t = Some n"
  proof -
    have ts: "tasks (fst (complete_task n a)) = pre @ t(''completed'' \<mapsto> JBool True) # post"
      using split pre t by (rule tasks_complete_task_split)
    have "(pre @ t(''completed'' \<mapsto> JBool True) # post) ! i = (pre @ t # post) ! i"
      if "i \<noteq> length pre" for i
      using that by (cases "i < length pre") (simp_all add: nth_append nth_Cons')
    then show ?thesis
      unfolding Let_def ts split by simp
  qed
  then show ?thesis
    by (simp add: tasks_delete_task)
qed

theorem mutation_frame_witness:
  "tasks (sample_app three_tasks) = [sample_task 1 ''a'' False] @ sample_task 2 ''b'' True #
     [sample_task 3 ''c'' False] \<and>
   has_ids [sample_task 1 ''a'' False] \<and> absent 2 [sample_task 1 ''a'' False] \<and>
   id_num (sample_task 2 ''b'' True) = Some 2 \<and>
   has_ids (tasks (sample_app three_tasks)) \<and>
   tasks (sample_app three_tasks) = [] @ sample_task 1 ''a'' False #
     [sample_task 2 ''b'' True, sample_task 3 ''c'' False] \<and>
   has_ids [] \<and> absent 1 [] \<and> id_num (sample_task 1 ''a'' False) = Some 1 \<and>
   tasks (fst (complete_task 1 (sample_app three_tasks))) =
     [sample_task 1 ''a'' True, sample_task 2 ''b'' True, sample_task 3 ''c'' False] \<and>
   tasks (fst (complete_task 2 (sample_app three_tasks))) =
     [sample_task 1 ''a'' False, sample_task 2 ''b'' True, sample_task 3 ''c'' False] \<and>
   tasks (fst (delete_task 2 (sample_app three_tasks))) =
     [sample_task 1 ''a'' False, sample_task 3 ''c'' False]"
proof -
  have s: "tasks (sample_app three_tasks) = [sample_task 1 ''a'' False] @ sample_task 2 ''b'' True #
     [sample_task 3 ''c'' False]"
    "tasks (sample_app three_tasks) = [] @ sample_task 1 ''a'' False #
     [sample_task 2 ''b'' True, sample_task 3 ''c'' False]"
    by (simp_all add: sample_defs)
  have h: "has_ids [sample_task 1 ''a'' False]" "absent 2 [sample_task 1 ''a'' False]"
    "has_ids []" "absent 1 []"
    "has_ids (tasks (sample_app three_tasks))"
    by (simp_all add: has_ids_def absent_def sample_defs sample_task_id id_num_sample_task)
  have i: "id_num (sample_task 2 ''b'' True) = Some 2" "id_num (sample_task 1 ''a'' False) = Some 1"
    by (simp_all add: id_num_sample_task)
  have c1: "tasks (fst (complete_task 1 (sample_app three_tasks))) =
      [sample_task 1 ''a'' True, sample_task 2 ''b'' True, sample_task 3 ''c'' False]"
    using mutation_frame [of "sample_app three_tasks" "[]" "sample_task 1 ''a'' False"
        "[sample_task 2 ''b'' True, sample_task 3 ''c'' False]" 1] s(2) h i
    by (simp add: Let_def sample_task_completed)
  have c2: "tasks (fst (complete_task 2 (sample_app three_tasks))) =
      [sample_task 1 ''a'' False, sample_task 2 ''b'' True, sample_task 3 ''c'' False]"
    using mutation_frame [of "sample_app three_tasks" "[sample_task 1 ''a'' False]"
        "sample_task 2 ''b'' True" "[sample_task 3 ''c'' False]" 2] s(1) h i
    by (simp add: Let_def sample_task_completed)
  have d: "tasks (fst (delete_task 2 (sample_app three_tasks))) =
      [sample_task 1 ''a'' False, sample_task 3 ''c'' False]"
    using mutation_frame [of "sample_app three_tasks" "[]" "sample_task 1 ''a'' False"
        "[sample_task 2 ''b'' True, sample_task 3 ''c'' False]" 2] h(5)
    by (simp add: sample_defs id_num_sample_task)
  show ?thesis
    using s h i c1 c2 d by simp
qed

section \<open>Tasks that share an id\<close>

lemma absent_filter_others: "absent n (filter (\<lambda>t. id_num t \<noteq> Some n) ts)"
  by (induction ts) (auto simp: absent_def)

text \<open>
  C10. Loading takes a readable JSON array as it is, so the sequence can hold several
  tasks with one id. When \<open>t1\<close> is the first task with the id \<open>n\<close> and \<open>t2\<close> a later
  one, \<open>complete_task n\<close> sets \<^verbatim>\<open>"completed"\<close> in \<open>t1\<close> and leaves \<open>t2\<close>, like every
  other task, as it was; \<open>delete_task n\<close> in one call removes \<open>t1\<close>, \<open>t2\<close> and every
  other task with that id, so that no task with the id \<open>n\<close> is left.
\<close>

theorem duplicate_ids_complete_first_delete_all:
  "(content d = Some (Json_array ts) \<and> readable d \<longrightarrow> tasks (TodoApp d) = ts) \<and>
   (tasks a = pre @ t1 # mid @ t2 # post \<and> has_ids (tasks a) \<and> absent n pre \<and>
    id_num t1 = Some n \<and> id_num t2 = Some n \<longrightarrow>
      tasks (fst (complete_task n a)) =
        pre @ t1(''completed'' \<mapsto> JBool True) # mid @ t2 # post \<and>
      tasks (fst (delete_task n a)) = pre @ filter (\<lambda>t. id_num t \<noteq> Some n) (mid @ post) \<and>
      absent n (tasks (fst (delete_task n a))) \<and>
      length (tasks (fst (delete_task n a))) + 2 \<le> length (tasks a))"
proof -
  have load: "tasks (TodoApp d) = ts" if "content d = Some (Json_array ts)" and "readable d"
    using that by (simp add: TodoApp_def load_tasks_def read_json_def)
  have dup: "tasks (fst (complete_task n a)) =
        pre @ t1(''completed'' \<mapsto> JBool True) # mid @ t2 # post \<and>
      tasks (fst (delete_task n a)) = pre @ filter (\<lambda>t. id_num t \<noteq> Some n) (mid @ post) \<and>
      absent n (tasks (fst (delete_task n a))) \<and>
      length (tasks (fst (delete_task n a))) + 2 \<le> length (tasks a)"
    if split: "tasks a = pre @ t1 # mid @ t2 # post" and h: "has_ids (tasks a)"
      and pre: "absent n pre" and t1: "id_num t1 = Some n" and t2: "id_num t2 = Some n"
  proof -
    from h split have hp: "has_ids pre" by (simp add: has_ids_append)
    have c: "tasks (fst (complete_task n a)) =
        pre @ t1(''completed'' \<mapsto> JBool True) # mid @ t2 # post"
      using split hp pre t1 by (rule tasks_complete_task_split)
    have d: "tasks (fst (delete_task n a)) = pre @ filter (\<lambda>t. id_num t \<noteq> Some n) (mid @ post)"
      using h pre t1 t2 by (simp add: tasks_delete_task split absent_filter)
    have "absent n (tasks (fst (delete_task n a)))"
      using h by (simp add: tasks_delete_task absent_filter_others)
    moreover have "length (filter (\<lambda>t. id_num t \<noteq> Some n) (mid @ post)) \<le> length (mid @ post)"
      by (rule length_filter_le)
    then have "length (tasks (fst (delete_task n a))) + 2 \<le> length (tasks a)"
      unfolding d split by simp
    ultimately show ?thesis using c d by simp
  qed
  from load dup show ?thesis by blast
qed

theorem duplicate_ids_complete_first_delete_all_witness:
  "content (sample_disk duplicate_tasks) = Some (Json_array duplicate_tasks) \<and>
   readable (sample_disk duplicate_tasks) \<and>
   tasks (TodoApp (sample_disk duplicate_tasks)) = duplicate_tasks \<and>
   tasks (TodoApp (sample_disk duplicate_tasks)) =
     [sample_task 1 ''a'' False] @ sample_task 2 ''b'' False # [] @ sample_task 2 ''c'' False #
       [sample_task 3 ''d'' False] \<and>
   has_ids (tasks (TodoApp (sample_disk duplicate_tasks))) \<and>
   absent 2 [sample_task 1 ''a'' False] \<and>
   id_num (sample_task 2 ''b'' False) = Some 2 \<and>
   id_num (sample_task 2 ''c'' False) = Some 2 \<and>
   tasks (fst (complete_task 2 (TodoApp (sample_disk duplicate_tasks)))) =
     [sample_task 1 ''a'' False, sample_task 2 ''b'' True, sample_task 2 ''c'' False,
      sample_task 3 ''d'' False] \<and>
   tasks (fst (delete_task 2 (TodoApp (sample_disk duplicate_tasks)))) =
     [sample_task 1 ''a'' False, sample_task 3 ''d'' False]"
proof -
  let ?a = "TodoApp (sample_disk duplicate_tasks)"
  have d: "content (sample_disk duplicate_tasks) = Some (Json_array duplicate_tasks)"
    "readable (sample_disk duplicate_tasks)"
    by (simp_all add: sample_disk_def)
  have l: "tasks ?a = duplicate_tasks"
    using duplicate_ids_complete_first_delete_all [of "sample_disk duplicate_tasks" duplicate_tasks] d
    by simp
  have s: "tasks ?a = [sample_task 1 ''a'' False] @ sample_task 2 ''b'' False # [] @
      sample_task 2 ''c'' False # [sample_task 3 ''d'' False]"
    unfolding l by (simp add: duplicate_tasks_def)
  have h: "has_ids (tasks ?a)" "absent 2 [sample_task 1 ''a'' False]"
    unfolding l by (simp_all add: has_ids_def absent_def duplicate_tasks_def sample_task_id
        id_num_sample_task)
  have i: "id_num (sample_task 2 ''b'' False) = Some 2" "id_num (sample_task 2 ''c'' False) = Some 2"
    by (simp_all add: id_num_sample_task)
  from duplicate_ids_complete_first_delete_all [of d ts ?a "[sample_task 1 ''a'' False]"
      "sample_task 2 ''b'' False" "[]" "sample_task 2 ''c'' False" "[sample_task 3 ''d'' False]" 2
      for d ts] s h i
  have "tasks (fst (complete_task 2 ?a)) =
      [sample_task 1 ''a'' False, sample_task 2 ''b'' True, sample_task 2 ''c'' False,
       sample_task 3 ''d'' False] \<and>
    tasks (fst (delete_task 2 ?a)) = [sample_task 1 ''a'' False, sample_task 3 ''d'' False]"
    by (simp add: sample_task_completed id_num_sample_task)
  with d l s h i show ?thesis by simp
qed

end
